theory Spec2Isabelle
  imports Complex_Main
begin

section \<open>Grids\<close>

text \<open>
  A grid is the JavaScript array of nine arrays of nine numbers; 0 marks an empty cell.
  All indices that reach the grid come from loops over 0..8 or from a cell of the board,
  so every theorem below fixes the shape with \<open>grid9\<close> and keeps indices below 9.
\<close>

type_synonym grid = "nat list list"

definition emptyGrid :: grid where
  "emptyGrid = replicate 9 (replicate 9 0)"

definition grid9 :: "grid \<Rightarrow> bool" where
  "grid9 g = (length g = 9 \<and> list_all (\<lambda>row. length row = 9) g)"

definition setCell :: "grid \<Rightarrow> nat \<Rightarrow> nat \<Rightarrow> nat \<Rightarrow> grid" where
  "setCell g r c v = g[r := (g ! r)[c := v]]"

definition countNonzero :: "grid \<Rightarrow> nat" where
  "countNonzero g = sum_list (map (\<lambda>row. length (filter (\<lambda>v. v \<noteq> 0) row)) g)"

section \<open>SudokuGenerator\<close>

subsection \<open>isValid\<close>

text \<open>
  The first loop returns false on a hit in the row or in the column, the nested loops on a
  hit in the box; the cell \<open>(row, col)\<close> itself is among the cells compared.
\<close>

definition isValid :: "grid \<Rightarrow> nat \<Rightarrow> nat \<Rightarrow> nat \<Rightarrow> bool" where
  "isValid grid row col num =
     (if list_ex (\<lambda>x. grid ! row ! x = num \<or> grid ! x ! col = num) [0..<9] then False
      else
        let startRow = (row div 3) * 3;
            startCol = (col div 3) * 3
        in if list_ex (\<lambda>i. list_ex (\<lambda>j. grid ! (startRow + i) ! (startCol + j) = num) [0..<3])
                [0..<3]
           then False
           else True)"

text \<open>
  The cells of the row, the column and the box of \<open>(row, col)\<close>, in the order of the
  loops. The specification's wording of \<open>isValid\<close>, for comparison: the digit appears
  \<^emph>\<open>elsewhere\<close> in the row, the column or the box, that is at a cell other than
  \<open>(row, col)\<close>.
\<close>

definition unitCells :: "nat \<Rightarrow> nat \<Rightarrow> (nat \<times> nat) list" where
  "unitCells row col =
     map (\<lambda>x. (row, x)) [0..<9] @ map (\<lambda>x. (x, col)) [0..<9] @
     concat (map (\<lambda>i. map (\<lambda>j. ((row div 3) * 3 + i, (col div 3) * 3 + j)) [0..<3]) [0..<3])"




subsection \<open>Randomness\<close>

text \<open>
  \<open>Math.random()\<close> is modelled by what the program reads from it. A draw \<open>d\<close> stands for
  one value of \<open>Math.floor(Math.random() * 9)\<close>, which lies in 0..8: \<open>rand9\<close> reduces it
  into that range. The draws are a finite list that is consumed from the front; a loop
  that asks for a draw when none is left has not returned within the given draws, which is
  the result \<open>None\<close>. The array that \<open>[1..9].sort(() => Math.random() - 0.5)\<close> leaves
  behind is taken from \<open>shuf\<close>: \<open>shuf k\<close> is the order tried at the \<open>k\<close>-th cell that
  \<open>fillGrid\<close> visits.
\<close>

definition rand9 :: "nat \<Rightarrow> nat" where
  "rand9 d = d mod 9"

subsection \<open>fillBox and isSafeBox\<close>

definition isSafeBox :: "grid \<Rightarrow> nat \<Rightarrow> nat \<Rightarrow> nat \<Rightarrow> bool" where
  "isSafeBox grid rowStart colStart num =
     (\<not> list_ex (\<lambda>i. list_ex (\<lambda>j. grid ! (rowStart + i) ! (colStart + j) = num) [0..<3]) [0..<3])"

text \<open>The do-while loop: draw until the number is not yet in the box.\<close>

fun pickSafe :: "grid \<Rightarrow> nat \<Rightarrow> nat \<Rightarrow> nat list \<Rightarrow> (nat \<times> nat list) option" where
  "pickSafe grid row col [] = None"
| "pickSafe grid row col (d # ds) =
     (let num = rand9 d + 1
      in if isSafeBox grid row col num then Some (num, ds) else pickSafe grid row col ds)"

fun fillBoxCells ::
  "grid \<Rightarrow> nat \<Rightarrow> nat \<Rightarrow> (nat \<times> nat) list \<Rightarrow> nat list \<Rightarrow> (grid \<times> nat list) option" where
  "fillBoxCells grid row col [] ds = Some (grid, ds)"
| "fillBoxCells grid row col ((i, j) # ps) ds =
     (case pickSafe grid row col ds of
        None \<Rightarrow> None
      | Some (num, ds') \<Rightarrow> fillBoxCells (setCell grid (row + i) (col + j) num) row col ps ds')"

definition boxOffsets :: "(nat \<times> nat) list" where
  "boxOffsets = concat (map (\<lambda>i. map (\<lambda>j. (i, j)) [0..<3]) [0..<3])"

definition fillBox :: "grid \<Rightarrow> nat \<Rightarrow> nat \<Rightarrow> nat list \<Rightarrow> (grid \<times> nat list) option" where
  "fillBox grid row col ds = fillBoxCells grid row col boxOffsets ds"

subsection \<open>fillGrid\<close>

definition allCells :: "(nat \<times> nat) list" where
  "allCells = concat (map (\<lambda>r. map (\<lambda>c. (r, c)) [0..<9]) [0..<9])"

text \<open>The two nested loops stop at the first empty cell in row-major order.\<close>

definition firstEmpty :: "grid \<Rightarrow> (nat \<times> nat) option" where
  "firstEmpty grid = find (\<lambda>(r, c). grid ! r ! c = 0) allCells"

text \<open>
  \<open>fillGrid\<close> recurses once per cell it fills; the first argument bounds the depth of
  that recursion (81 cells, so 82 is always enough: \<open>fillGrid_returns\<close> below).
  \<open>tryNums\<close> is the loop \<open>for (let num of nums)\<close> at the empty cell \<open>(row, col)\<close>.
  The result is the returned boolean, the grid as the call leaves it and the next
  shuffle index.
\<close>

fun fillGrid :: "nat \<Rightarrow> (nat \<Rightarrow> nat list) \<Rightarrow> grid \<Rightarrow> nat \<Rightarrow> (bool \<times> grid \<times> nat) option"
  and tryNums ::
    "nat \<Rightarrow> (nat \<Rightarrow> nat list) \<Rightarrow> nat \<Rightarrow> nat \<Rightarrow> nat list \<Rightarrow> grid \<Rightarrow> nat \<Rightarrow> (bool \<times> grid \<times> nat) option"
  where
  "fillGrid 0 shuf grid k = None"
| "fillGrid (Suc n) shuf grid k =
     (case firstEmpty grid of
        None \<Rightarrow> Some (True, grid, k)
      | Some (row, col) \<Rightarrow> tryNums n shuf row col (shuf k) grid (Suc k))"
| "tryNums n shuf row col [] grid k = Some (False, grid, k)"
| "tryNums n shuf row col (num # nums) grid k =
     (if isValid grid row col num then
        (case fillGrid n shuf (setCell grid row col num) k of
           None \<Rightarrow> None
         | Some (ok, grid', k') \<Rightarrow>
             if ok then Some (True, grid', k')
             else tryNums n shuf row col nums (setCell grid' row col 0) k')
      else tryNums n shuf row col nums grid k)"

subsection \<open>The difficulty table\<close>

record difficultyEntry =
  removed :: nat
  multiplier :: rat

text \<open>
  \<open>DIFFICULTY\<close> is an object literal, and \<open>DIFFICULTY[key]\<close> is JavaScript's property
  lookup, which follows the prototype chain: it finds the four own properties and, for any
  other key, what the object inherits from \<open>Object.prototype\<close>. The inherited values
  are functions (for \<open>__proto__\<close> the prototype object itself), all of them truthy and
  none with a property \<open>removed\<close>. \<open>None\<close> is \<open>undefined\<close>, the result for every
  other key.
\<close>

datatype property = Own difficultyEntry | Inherited

definition objectPrototypeKeys :: "string list" where
  "objectPrototypeKeys =
     [''constructor'', ''hasOwnProperty'', ''isPrototypeOf'', ''propertyIsEnumerable'',
      ''toLocaleString'', ''toString'', ''valueOf'', ''__proto__'',
      ''__defineGetter__'', ''__defineSetter__'', ''__lookupGetter__'', ''__lookupSetter__'']"

definition DIFFICULTY :: "string \<Rightarrow> property option" where
  "DIFFICULTY key =
     (if key = ''easy'' then Some (Own \<lparr>removed = 30, multiplier = 1\<rparr>)
      else if key = ''medium'' then Some (Own \<lparr>removed = 40, multiplier = 3 / 2\<rparr>)
      else if key = ''hard'' then Some (Own \<lparr>removed = 50, multiplier = 2\<rparr>)
      else if key = ''expert'' then Some (Own \<lparr>removed = 55, multiplier = 3\<rparr>)
      else if key \<in> set objectPrototypeKeys then Some Inherited
      else None)"

text \<open>
  \<open>DIFFICULTY[difficulty] ? DIFFICULTY[difficulty].removed : 30\<close>. The result \<open>None\<close> is
  \<open>undefined\<close>, read from an inherited property that has no \<open>removed\<close>.
\<close>

definition attempts :: "string \<Rightarrow> nat option" where
  "attempts difficulty =
     (case DIFFICULTY difficulty of
        None \<Rightarrow> Some 30
      | Some (Own e) \<Rightarrow> Some (removed e)
      | Some Inherited \<Rightarrow> None)"

subsection \<open>generate\<close>

text \<open>
  The loop \<open>while (count > 0)\<close>: two draws per round, a cell is blanked and counted only
  when it is not empty yet.
\<close>

fun removeCells :: "grid \<Rightarrow> nat \<Rightarrow> nat list \<Rightarrow> grid option" where
  "removeCells grid 0 ds = Some grid"
| "removeCells grid (Suc n) (dr # dc # ds) =
     (let r = rand9 dr; c = rand9 dc
      in if grid ! r ! c \<noteq> 0 then removeCells (setCell grid r c 0) n ds
         else removeCells grid (Suc n) ds)"
| "removeCells grid (Suc n) ds = None"

text \<open>With \<open>count\<close> undefined the comparison \<open>count > 0\<close> is false and the loop is skipped.\<close>

definition removeNumbers :: "grid \<Rightarrow> nat option \<Rightarrow> nat list \<Rightarrow> grid option" where
  "removeNumbers grid count ds =
     (case count of None \<Rightarrow> Some grid | Some n \<Rightarrow> removeCells grid n ds)"

text \<open>
  The three diagonal boxes, then \<open>fillGrid\<close>, whose boolean result the source drops.
  The result is the pair \<open>(initial, solution)\<close>.
\<close>

definition fillDiagonal :: "nat list \<Rightarrow> (grid \<times> nat list) option" where
  "fillDiagonal ds =
     (case fillBox emptyGrid 0 0 ds of
        None \<Rightarrow> None
      | Some (g1, ds1) \<Rightarrow>
          (case fillBox g1 3 3 ds1 of
             None \<Rightarrow> None
           | Some (g2, ds2) \<Rightarrow> fillBox g2 6 6 ds2))"

definition generate :: "string \<Rightarrow> nat list \<Rightarrow> (nat \<Rightarrow> nat list) \<Rightarrow> (grid \<times> grid) option" where
  "generate difficulty ds shuf =
     (case fillDiagonal ds of
        None \<Rightarrow> None
      | Some (g3, ds3) \<Rightarrow>
          (case fillGrid 82 shuf g3 0 of
             None \<Rightarrow> None
           | Some (ok, g4, k) \<Rightarrow>
               let solution = g4
               in (case removeNumbers g4 (attempts difficulty) ds3 of
                     None \<Rightarrow> None
                   | Some g5 \<Rightarrow> Some (g5, solution))))"

text \<open>The difficulty table as the specification lists it (tier, cells removed).\<close>

definition supportedTiers :: "(string \<times> nat) list" where
  "supportedTiers = [(''easy'', 30), (''medium'', 40), (''hard'', 50), (''expert'', 55)]"

section \<open>Session state\<close>

definition HINT_COST :: int where
  "HINT_COST = 50"

definition MAX_MISTAKES :: nat where
  "MAX_MISTAKES = 3"

text \<open>A history entry \<open>{type, r, c, val, prevVal}\<close>; only entries of type \<open>'input'\<close> are ever pushed.\<close>

datatype actionType = Input | Note

record action =
  act_type :: actionType
  act_r :: nat
  act_c :: nat
  act_val :: nat
  act_prevVal :: nat

text \<open>
  The global \<open>state\<close> object. The handle \<open>timerInterval\<close>, the page and the browser's
  storage are outside the record: rendering, \<open>saveGame\<close>, \<open>saveHighScore\<close> and the modal
  read the state and do not write it. A note list is the array of digits of one cell.
\<close>

record state =
  grid :: grid
  solution :: grid
  initial :: grid
  "notes" :: "nat list list list"
  selectedCell :: "(nat \<times> nat) option"
  score :: int
  timer :: nat
  mistakes :: nat
  level :: string
  isNoteMode :: bool
  history :: "action list"
  isPaused :: bool
  isGameOver :: bool

definition initState :: state where
  "initState =
     \<lparr>grid = [], solution = [], initial = [], notes = [], selectedCell = None, score = 0,
      timer = 0, mistakes = 0, level = ''easy'', isNoteMode = False, history = [],
      isPaused = False, isGameOver = False\<rparr>"

definition setNote :: "nat list list list \<Rightarrow> nat \<Rightarrow> nat \<Rightarrow> nat list \<Rightarrow> nat list list list" where
  "setNote ns r c v = ns[r := (ns ! r)[c := v]]"

definition emptyNotes :: "nat list list list" where
  "emptyNotes = replicate 9 (replicate 9 [])"

subsection \<open>Game control\<close>

definition startGame :: "string \<Rightarrow> nat list \<Rightarrow> (nat \<Rightarrow> nat list) \<Rightarrow> state \<Rightarrow> state option" where
  "startGame lvl ds shuf s =
     (case generate lvl ds shuf of
        None \<Rightarrow> None
      | Some (ini, sol) \<Rightarrow>
          Some (s\<lparr>level := lvl, score := 0, mistakes := 0, timer := 0, isGameOver := False,
                  isPaused := False, history := [], notes := emptyNotes,
                  initial := ini, grid := ini, solution := sol\<rparr>))"


definition selectCell :: "nat \<Rightarrow> nat \<Rightarrow> state \<Rightarrow> state" where
  "selectCell r c s = (if isGameOver s then s else s\<lparr>selectedCell := Some (r, c)\<rparr>)"

text \<open>\<open>gameOver\<close> sets the flag; the rest of it stops the timer and shows the result.\<close>

definition gameOver :: "bool \<Rightarrow> state \<Rightarrow> state" where
  "gameOver isWin s = s\<lparr>isGameOver := True\<rparr>"

definition pauseGame :: "state \<Rightarrow> state" where
  "pauseGame s = (if isGameOver s then s else s\<lparr>isPaused := True\<rparr>)"

definition resumeFromPause :: "state \<Rightarrow> state" where
  "resumeFromPause s = s\<lparr>isPaused := False\<rparr>"

subsection \<open>Interaction\<close>

text \<open>
  \<open>checkCompletion\<close>: the inner \<open>break\<close>s only cut the scans short, so \<open>isFull\<close> says
  that no cell is 0 and \<open>isCorrect\<close> that every cell equals the solution; the 10 points
  are added on every call.
\<close>

definition checkCompletion :: "state \<Rightarrow> state" where
  "checkCompletion s =
     (let isFull = list_all (\<lambda>(r, c). grid s ! r ! c \<noteq> 0) allCells;
          s1 = (if isFull then
                  (let isCorrect = list_all (\<lambda>(r, c). grid s ! r ! c = solution s ! r ! c) allCells
                   in if isCorrect then gameOver True s else s)
                else s)
      in s1\<lparr>score := score s1 + 10\<rparr>)"

definition handleMistake :: "nat \<Rightarrow> nat \<Rightarrow> state \<Rightarrow> state" where
  "handleMistake r c s =
     (let s1 = s\<lparr>mistakes := mistakes s + 1\<rparr>
      in if mistakes s1 \<ge> MAX_MISTAKES then gameOver False s1
         else s1\<lparr>score := max 0 (score s1 - 50)\<rparr>)"

text \<open>\<open>shift\<close> drops the oldest entry (the head), \<open>push\<close> appends.\<close>

definition addToHistory :: "action \<Rightarrow> state \<Rightarrow> state" where
  "addToHistory a s =
     (let s1 = (if length (history s) > 20 then s\<lparr>history := tl (history s)\<rparr> else s)
      in s1\<lparr>history := history s1 @ [a]\<rparr>)"

text \<open>
  \<open>indexOf\<close> finds the first occurrence and \<open>splice(idx, 1)\<close> removes it. Every
  entry of the 9x9 notes array is an array, so the tests for a missing entry in
  \<open>removeNote\<close> and \<open>toggleNoteValue\<close> always find one.
\<close>

definition removeNote :: "nat \<Rightarrow> nat \<Rightarrow> nat \<Rightarrow> state \<Rightarrow> state" where
  "removeNote r c num s =
     (if num \<in> set (notes s ! r ! c)
      then s\<lparr>notes := setNote (notes s) r c (remove1 num (notes s ! r ! c))\<rparr>
      else s)"

definition toggleNoteValue :: "nat \<Rightarrow> nat \<Rightarrow> nat \<Rightarrow> state \<Rightarrow> state" where
  "toggleNoteValue r c num s =
     (if num \<in> set (notes s ! r ! c)
      then s\<lparr>notes := setNote (notes s) r c (remove1 num (notes s ! r ! c))\<rparr>
      else s\<lparr>notes := setNote (notes s) r c (notes s ! r ! c @ [num])\<rparr>)"

definition clearNotesForMove :: "nat \<Rightarrow> nat \<Rightarrow> nat \<Rightarrow> state \<Rightarrow> state" where
  "clearNotesForMove r c num s =
     (let s1 = s\<lparr>notes := setNote (notes s) r c []\<rparr>;
          s2 = fold (\<lambda>i. removeNote r i num) [0..<9] s1;
          s3 = fold (\<lambda>i. removeNote i c num) [0..<9] s2;
          startRow = (r div 3) * 3;
          startCol = (c div 3) * 3
      in fold (\<lambda>i. fold (\<lambda>j. removeNote (startRow + i) (startCol + j) num) [0..<3]) [0..<3] s3)"

text \<open>\<open>renderBoard\<close> and \<open>saveGame\<close> at the end of a normal input leave the state as it is.\<close>

definition inputNumber :: "nat \<Rightarrow> state \<Rightarrow> state" where
  "inputNumber num s =
     (if isGameOver s then s
      else case selectedCell s of
        None \<Rightarrow> s
      | Some (r, c) \<Rightarrow>
          if initial s ! r ! c \<noteq> 0 then s
          else if isNoteMode s then toggleNoteValue r c num s
          else
            let prevVal = grid s ! r ! c
            in if prevVal = num then s
               else
                 let s1 = addToHistory
                            \<lparr>act_type = Input, act_r = r, act_c = c, act_val = num,
                             act_prevVal = prevVal\<rparr> s;
                     s2 = s1\<lparr>grid := setCell (grid s1) r c num\<rparr>
                 in if num \<noteq> 0 then
                      (if num \<noteq> solution s2 ! r ! c then handleMistake r c s2
                       else clearNotesForMove r c num (checkCompletion s2))
                    else s2)"

text \<open>\<open>pop\<close> takes the newest entry, the last one.\<close>

definition undo :: "state \<Rightarrow> state" where
  "undo s =
     (if history s = [] \<or> isGameOver s then s
      else
        let a = last (history s);
            s1 = s\<lparr>history := butlast (history s)\<rparr>;
            s2 = (if act_type a = Input
                  then s1\<lparr>grid := setCell (grid s1) (act_r a) (act_c a) (act_prevVal a)\<rparr>
                  else s1)
        in selectCell (act_r a) (act_c a) s2)"

definition erase :: "state \<Rightarrow> state" where
  "erase s =
     (if isGameOver s then s
      else case selectedCell s of
        None \<Rightarrow> s
      | Some (r, c) \<Rightarrow> if initial s ! r ! c \<noteq> 0 then s else inputNumber 0 s)"

definition toggleNotes :: "state \<Rightarrow> state" where
  "toggleNotes s = s\<lparr>isNoteMode := \<not> isNoteMode s\<rparr>"

text \<open>The three assignments under \<open>// Apply Hint\<close>, before the completion check runs.\<close>

definition applyHint :: "nat \<Rightarrow> nat \<Rightarrow> state \<Rightarrow> state" where
  "applyHint r c s =
     s\<lparr>score := score s - HINT_COST,
       grid := setCell (grid s) r c (solution s ! r ! c),
       initial := setCell (initial s) r c (solution s ! r ! c)\<rparr>"

definition useHint :: "state \<Rightarrow> state" where
  "useHint s =
     (if isGameOver s then s
      else if score s < HINT_COST then s
      else case selectedCell s of
        None \<Rightarrow> s
      | Some (r, c) \<Rightarrow>
          if grid s ! r ! c \<noteq> 0 then s
          else checkCompletion (applyHint r c s))"

section \<open>Well-formed states and player operations\<close>

definition notes9 :: "nat list list list \<Rightarrow> bool" where
  "notes9 ns = (length ns = 9 \<and> list_all (\<lambda>row. length row = 9) ns)"

text \<open>A note list is a set of digits: \<open>toggleNoteValue\<close> never adds a digit twice.\<close>

definition notesDistinct :: "nat list list list \<Rightarrow> bool" where
  "notesDistinct ns = list_all (list_all distinct) ns"

definition wellFormed :: "state \<Rightarrow> bool" where
  "wellFormed s =
     (grid9 (grid s) \<and> grid9 (solution s) \<and> grid9 (initial s) \<and> notes9 (notes s) \<and>
      (case selectedCell s of None \<Rightarrow> True | Some (r, c) \<Rightarrow> r < 9 \<and> c < 9))"

text \<open>The condition under which \<open>highlightBoard\<close> marks a cell as related to \<open>(r, c)\<close>.\<close>

definition related :: "nat \<Rightarrow> nat \<Rightarrow> nat \<Rightarrow> nat \<Rightarrow> bool" where
  "related r c tr tc = (tr = r \<or> tc = c \<or> (tr div 3 = r div 3 \<and> tc div 3 = c div 3))"

text \<open>What the player can do on the game screen, one constructor per handler.\<close>

datatype operation =
  Select nat nat | Enter nat | Erase | Undo | Hint | ToggleNotes | Pause | Resume

fun perform :: "operation \<Rightarrow> state \<Rightarrow> state" where
  "perform (Select r c) s = selectCell r c s"
| "perform (Enter num) s = inputNumber num s"
| "perform Erase s = erase s"
| "perform Undo s = undo s"
| "perform Hint s = useHint s"
| "perform ToggleNotes s = toggleNotes s"
| "perform Pause s = pauseGame s"
| "perform Resume s = resumeFromPause s"

definition run :: "operation list \<Rightarrow> state \<Rightarrow> state" where
  "run ops s = fold perform ops s"

section \<open>A concrete session\<close>

text \<open>
  One run of the generator, used wherever a theorem is evaluated on a concrete input.
  The draws fill the diagonal boxes without a repeated number, the shuffles put the digit
  of \<open>demoSolution\<close> first, and the removal draws blank the first cells in row-major order.
\<close>

definition solDigit :: "nat \<Rightarrow> nat \<Rightarrow> nat" where
  "solDigit r c = (r * 3 + r div 3 + c) mod 9 + 1"

definition demoShuffle :: "nat \<Rightarrow> nat list" where
  "demoShuffle k =
     (case filter (\<lambda>(r, c). r div 3 \<noteq> c div 3) allCells ! k of
        (r, c) \<Rightarrow> solDigit r c # filter (\<lambda>d. d \<noteq> solDigit r c) [1..<10])"

definition diagDraws :: "nat list" where
  "diagDraws =
     [0, 1, 2, 3, 4, 5, 6, 7, 8] @ [4, 5, 6, 7, 8, 0, 1, 2, 3] @ [8, 0, 1, 2, 3, 4, 5, 6, 7]"

definition removalDraws :: "nat \<Rightarrow> nat list" where
  "removalDraws n = concat (map (\<lambda>(r, c). [r, c]) (take n allCells))"

definition demoDiagonal :: grid where
  "demoDiagonal =
    [[1, 2, 3, 0, 0, 0, 0, 0, 0], [4, 5, 6, 0, 0, 0, 0, 0, 0], [7, 8, 9, 0, 0, 0, 0, 0, 0],
     [0, 0, 0, 5, 6, 7, 0, 0, 0], [0, 0, 0, 8, 9, 1, 0, 0, 0], [0, 0, 0, 2, 3, 4, 0, 0, 0],
     [0, 0, 0, 0, 0, 0, 9, 1, 2], [0, 0, 0, 0, 0, 0, 3, 4, 5], [0, 0, 0, 0, 0, 0, 6, 7, 8]]"

definition demoSolution :: grid where
  "demoSolution =
    [[1, 2, 3, 4, 5, 6, 7, 8, 9], [4, 5, 6, 7, 8, 9, 1, 2, 3], [7, 8, 9, 1, 2, 3, 4, 5, 6],
     [2, 3, 4, 5, 6, 7, 8, 9, 1], [5, 6, 7, 8, 9, 1, 2, 3, 4], [8, 9, 1, 2, 3, 4, 5, 6, 7],
     [3, 4, 5, 6, 7, 8, 9, 1, 2], [6, 7, 8, 9, 1, 2, 3, 4, 5], [9, 1, 2, 3, 4, 5, 6, 7, 8]]"

definition easyInitial :: grid where
  "easyInitial =
    [[0, 0, 0, 0, 0, 0, 0, 0, 0], [0, 0, 0, 0, 0, 0, 0, 0, 0], [0, 0, 0, 0, 0, 0, 0, 0, 0],
     [0, 0, 0, 5, 6, 7, 8, 9, 1], [5, 6, 7, 8, 9, 1, 2, 3, 4], [8, 9, 1, 2, 3, 4, 5, 6, 7],
     [3, 4, 5, 6, 7, 8, 9, 1, 2], [6, 7, 8, 9, 1, 2, 3, 4, 5], [9, 1, 2, 3, 4, 5, 6, 7, 8]]"

text \<open>The session that \<open>startGame('easy')\<close> sets up from that run.\<close>

definition easySession :: state where
  "easySession =
     \<lparr>grid = easyInitial, solution = demoSolution, initial = easyInitial, notes = emptyNotes,
      selectedCell = None, score = 0, timer = 0, mistakes = 0, level = ''easy'',
      isNoteMode = False, history = [], isPaused = False, isGameOver = False\<rparr>"

subsection \<open>States reached by play\<close>

text \<open>
  Two wrong digits and one right digit at \<open>(0, 0)\<close>, then \<open>(0, 1)\<close> selected: two
  mistakes, 10 points.
\<close>

definition twoMistakes :: state where
  "twoMistakes = run [Select 0 0, Enter 2, Enter 3, Enter 1, Select 0 1] easySession"

text \<open>Five right digits in the first row, then the empty cell \<open>(0, 5)\<close> selected: 50 points.\<close>

definition fiftyPoints :: state where
  "fiftyPoints =
     run [Select 0 0, Enter 1, Select 0 1, Enter 2, Select 0 2, Enter 3, Select 0 3, Enter 4,
          Select 0 4, Enter 5, Select 0 5] easySession"

text \<open>From there: the right digit at \<open>(0, 5)\<close>, erased again, then a hint on that cell.\<close>

definition hinted :: state where
  "hinted = run [Enter 6, Erase, Hint] fiftyPoints"


text \<open>The digit 1 entered and erased ten times at \<open>(0, 0)\<close>: twenty moves.\<close>

definition twentyMoves :: state where
  "twentyMoves = run (Select 0 0 # concat (replicate 10 [Enter 1, Erase])) easySession"

text \<open>
  Notes 1 and 4 at \<open>(0, 1)\<close>, 1 at \<open>(1, 4)\<close> and 2 at \<open>(0, 0)\<close>, then normal mode
  again with \<open>(0, 0)\<close> selected.
\<close>

definition notedSession :: state where
  "notedSession =
     run [ToggleNotes, Select 0 1, Enter 1, Enter 4, Select 1 4, Enter 1, Select 0 0, Enter 2,
          ToggleNotes] easySession"

section \<open>Properties of isValid\<close>

lemma isValid_unitCells:
  "isValid g row col d = (\<not> list_ex (\<lambda>(r, c). g ! r ! c = d) (unitCells row col))"
  by (simp add: isValid_def unitCells_def list_ex_iff Let_def) blast

lemma self_in_unitCells: "row < 9 \<Longrightarrow> (row, col) \<in> set (unitCells row col)"
  by (simp add: unitCells_def)

section \<open>Grid lemmas\<close>

lemma grid9_emptyGrid: "grid9 emptyGrid"
  by (simp add: grid9_def emptyGrid_def list_all_iff)

lemma nth_update_if: "xs[i := x] ! j = (if i = j \<and> i < length xs then x else xs ! j)"
  by (cases "i < length xs") (auto simp: not_less list_update_beyond)

lemma grid9_iff: "grid9 g \<longleftrightarrow> length g = 9 \<and> (\<forall>r<9. length (g ! r) = 9)"
  by (auto simp: grid9_def list_all_length)

lemma grid9_setCell: "grid9 g \<Longrightarrow> grid9 (setCell g r c v)"
  by (auto simp: grid9_iff setCell_def nth_update_if)

lemma setCell_get:
  "grid9 g \<Longrightarrow> r < 9 \<Longrightarrow> c < 9 \<Longrightarrow> setCell g r c v ! r' ! c' = (if r' = r \<and> c' = c then v else g ! r' ! c')"
  by (auto simp: grid9_iff setCell_def nth_list_update)

lemma setCell_restore:
  "g ! r ! c = v \<Longrightarrow> setCell (setCell g r c w) r c v = g"
proof (cases "r < length g")
  case True
  assume "g ! r ! c = v"
  then have "(g ! r)[c := v] = g ! r" by auto
  with True show ?thesis by (simp add: setCell_def)
next
  case False
  then show ?thesis by (simp add: setCell_def not_less list_update_beyond)
qed

lemma length_filter_update:
  "i < length xs \<Longrightarrow>
   length (filter P (xs[i := v])) + (if P (xs ! i) then 1 else 0) =
   length (filter P xs) + (if P v then 1 else 0)"
proof (induction xs arbitrary: i)
  case Nil
  then show ?case by simp
next
  case (Cons x xs)
  then show ?case by (cases i) auto
qed

lemma sum_list_map_update:
  fixes f :: "'a \<Rightarrow> nat"
  shows "i < length xs \<Longrightarrow> sum_list (map f (xs[i := y])) + f (xs ! i) = sum_list (map f xs) + f y"
proof (induction xs arbitrary: i)
  case Nil
  then show ?case by simp
next
  case (Cons x xs)
  then show ?case by (cases i) auto
qed

lemma countNonzero_setCell:
  assumes "r < length g" "c < length (g ! r)"
  shows "countNonzero (setCell g r c v) + (if g ! r ! c \<noteq> 0 then 1 else 0) =
         countNonzero g + (if v \<noteq> 0 then 1 else 0)"
proof -
  let ?f = "\<lambda>row. length (filter (\<lambda>v. v \<noteq> (0::nat)) row)"
  have a: "sum_list (map ?f (g[r := (g ! r)[c := v]])) + ?f (g ! r) =
           sum_list (map ?f g) + ?f ((g ! r)[c := v])"
    using assms(1) by (rule sum_list_map_update)
  have b: "?f ((g ! r)[c := v]) + (if g ! r ! c \<noteq> 0 then 1 else 0) =
           ?f (g ! r) + (if v \<noteq> 0 then 1 else 0)"
    using assms(2) by (rule length_filter_update)
  from a b show ?thesis
    unfolding countNonzero_def setCell_def by linarith
qed

lemma countNonzero_setCell_le: "countNonzero (setCell g r c v) \<le> countNonzero g + 1"
proof (cases "r < length g \<and> c < length (g ! r)")
  case True
  then show ?thesis using countNonzero_setCell[of r g c v] by (auto split: if_splits)
next
  case False
  then have "setCell g r c v = g"
    by (cases "r < length g") (auto simp: setCell_def not_less list_update_beyond)
  then show ?thesis by simp
qed

lemma countNonzero_emptyGrid: "countNonzero emptyGrid = 0"
  by (simp add: countNonzero_def emptyGrid_def)

lemma countNonzero_blank:
  "grid9 g \<Longrightarrow> r < 9 \<Longrightarrow> c < 9 \<Longrightarrow> g ! r ! c \<noteq> 0 \<Longrightarrow>
   countNonzero (setCell g r c 0) + 1 = countNonzero g"
  using countNonzero_setCell[of r g c 0] by (simp add: grid9_iff)

lemma in_allCells: "(r, c) \<in> set allCells \<longleftrightarrow> r < 9 \<and> c < 9"
  by (force simp: allCells_def)

lemma firstEmpty_Some:
  "firstEmpty g = Some (r, c) \<Longrightarrow> r < 9 \<and> c < 9 \<and> g ! r ! c = 0"
  unfolding firstEmpty_def
proof -
  assume "find (\<lambda>(r, c). g ! r ! c = 0) allCells = Some (r, c)"
  then obtain i where "i < length allCells" "allCells ! i = (r, c)" "g ! r ! c = 0"
    by (auto simp: find_Some_iff)
  moreover from this have "(r, c) \<in> set allCells" by (metis nth_mem)
  ultimately show ?thesis by (simp add: in_allCells)
qed

lemma firstEmpty_None: "firstEmpty g = None \<longleftrightarrow> (\<forall>r<9. \<forall>c<9. g ! r ! c \<noteq> 0)"
  unfolding firstEmpty_def by (auto simp: find_None_iff in_allCells)

lemma sum_list_const:
  fixes f :: "'a \<Rightarrow> nat"
  shows "\<forall>x\<in>set xs. f x = k \<Longrightarrow> sum_list (map f xs) = k * length xs"
  by (induction xs) auto

lemma countNonzero_full:
  assumes "grid9 g" "firstEmpty g = None"
  shows "countNonzero g = 81"
proof -
  have "\<forall>row\<in>set g. length (filter (\<lambda>v. v \<noteq> 0) row) = 9"
  proof
    fix row assume "row \<in> set g"
    then obtain r where r: "r < length g" "row = g ! r"
      by (auto simp: in_set_conv_nth)
    with assms have len: "length row = 9" "r < 9"
      by (auto simp: grid9_iff)
    have "\<forall>v\<in>set row. v \<noteq> 0"
    proof
      fix v assume "v \<in> set row"
      then obtain c where "c < length row" "v = row ! c"
        by (auto simp: in_set_conv_nth)
      with assms(2) r len show "v \<noteq> 0"
        by (auto simp: firstEmpty_None)
    qed
    then have "filter (\<lambda>v. v \<noteq> 0) row = row" by (simp add: filter_id_conv)
    with len show "length (filter (\<lambda>v. v \<noteq> 0) row) = 9" by simp
  qed
  then have "countNonzero g = 9 * length g"
    unfolding countNonzero_def by (rule sum_list_const)
  with assms(1) show ?thesis by (simp add: grid9_def)
qed

section \<open>The generator: invariants and termination\<close>

lemma fillBoxCells_inv:
  "fillBoxCells g row col ps ds = Some (g', ds') \<Longrightarrow> grid9 g \<Longrightarrow>
   grid9 g' \<and> countNonzero g' \<le> countNonzero g + length ps"
proof (induction ps arbitrary: g ds)
  case Nil
  then show ?case by simp
next
  case (Cons p ps)
  obtain i j where p: "p = (i, j)" by (cases p)
  from Cons.prems(1) p obtain num ds1 where
    pick: "pickSafe g row col ds = Some (num, ds1)" and
    rest: "fillBoxCells (setCell g (row + i) (col + j) num) row col ps ds1 = Some (g', ds')"
    by (auto split: option.splits)
  from Cons.IH[OF rest] Cons.prems(2)
  have "grid9 g'" and
    "countNonzero g' \<le> countNonzero (setCell g (row + i) (col + j) num) + length ps"
    by (simp_all add: grid9_setCell)
  with countNonzero_setCell_le[of g "row + i" "col + j" num] show ?case by simp
qed

lemma boxOffsets_length: "length boxOffsets = 9"
  by code_simp

lemma fillBox_inv:
  "fillBox g row col ds = Some (g', ds') \<Longrightarrow> grid9 g \<Longrightarrow>
   grid9 g' \<and> countNonzero g' \<le> countNonzero g + 9"
  using fillBoxCells_inv[of g row col boxOffsets ds g' ds']
  by (simp add: fillBox_def boxOffsets_length)

lemma fillDiagonal_inv:
  assumes "fillDiagonal ds = Some (g, ds')"
  shows "grid9 g \<and> countNonzero g \<le> 27"
proof -
  from assms obtain g1 ds1 g2 ds2 where
    b1: "fillBox emptyGrid 0 0 ds = Some (g1, ds1)" and
    b2: "fillBox g1 3 3 ds1 = Some (g2, ds2)" and
    b3: "fillBox g2 6 6 ds2 = Some (g, ds')"
    by (auto simp: fillDiagonal_def split: option.splits)
  from fillBox_inv[OF b1 grid9_emptyGrid]
  have g1: "grid9 g1" "countNonzero g1 \<le> 9" by (simp_all add: countNonzero_emptyGrid)
  from fillBox_inv[OF b2 g1(1)] g1(2)
  have g2: "grid9 g2" "countNonzero g2 \<le> 18" by simp_all
  from fillBox_inv[OF b3 g2(1)] g2(2) show ?thesis by simp
qed

lemma fillGrid_tryNums_inv:
  "(fillGrid n shuf g k = Some (ok, g', k') \<longrightarrow> grid9 g \<longrightarrow>
      (if ok then grid9 g' \<and> firstEmpty g' = None else g' = g))"
  "(tryNums n shuf row col nums g k = Some (ok, g', k') \<longrightarrow> grid9 g \<longrightarrow> g ! row ! col = 0 \<longrightarrow>
      (if ok then grid9 g' \<and> firstEmpty g' = None else g' = g))"
proof (induction n shuf g k and n shuf row col nums g k arbitrary: ok g' k' and ok g' k'
    rule: fillGrid_tryNums.induct)
  case (1 shuf g k)
  then show ?case by simp
next
  case (2 n shuf g k)
  show ?case
  proof (cases "firstEmpty g")
    case None
    then show ?thesis by auto
  next
    case (Some p)
    obtain row col where p: "p = (row, col)" by (cases p)
    from Some p have fe: "firstEmpty g = Some (row, col)" by simp
    from firstEmpty_Some[OF fe] have z: "g ! row ! col = 0" by simp
    from 2[OF fe refl, of ok g' k'] z fe show ?thesis by simp
  qed
next
  case (3 n shuf row col g k)
  then show ?case by auto
next
  case (4 n shuf row col num nums g k)
  show ?case
  proof (intro impI)
    assume res: "tryNums n shuf row col (num # nums) g k = Some (ok, g', k')"
      and g9: "grid9 g" and z: "g ! row ! col = 0"
    show "if ok then grid9 g' \<and> firstEmpty g' = None else g' = g"
    proof (cases "isValid g row col num")
      case False
      with res have "tryNums n shuf row col nums g k = Some (ok, g', k')" by simp
      with 4(3)[OF False] g9 z show ?thesis by simp
    next
      case True
      with res obtain ok1 g1 k1 where
        rec: "fillGrid n shuf (setCell g row col num) k = Some (ok1, g1, k1)"
        by (auto split: option.splits)
      from 4(1)[OF True, of ok1 g1 k1] rec g9
      have inv1: "if ok1 then grid9 g1 \<and> firstEmpty g1 = None else g1 = setCell g row col num"
        by (simp add: grid9_setCell)
      show ?thesis
      proof (cases ok1)
        case True
        with res rec \<open>isValid g row col num\<close> have "ok = True" "g' = g1" by simp_all
        with inv1 True show ?thesis by simp
      next
        case False
        with inv1 have g1: "g1 = setCell g row col num" by simp
        with z have undone: "setCell g1 row col 0 = g" by (simp add: setCell_restore)
        from res rec False \<open>isValid g row col num\<close>
        have "tryNums n shuf row col nums (setCell g1 row col 0) k1 = Some (ok, g', k')" by simp
        with 4(2)[OF \<open>isValid g row col num\<close> rec refl refl False, of ok g' k'] undone g9 z
        show ?thesis by simp
      qed
    qed
  qed
qed

lemma sum_list_bound:
  fixes f :: "'a \<Rightarrow> nat"
  shows "\<forall>x\<in>set xs. f x \<le> k \<Longrightarrow> sum_list (map f xs) \<le> k * length xs"
  by (induction xs) auto

lemma countNonzero_le_81: "grid9 g \<Longrightarrow> countNonzero g \<le> 81"
proof -
  assume g: "grid9 g"
  have "\<forall>row\<in>set g. length (filter (\<lambda>v. v \<noteq> 0) row) \<le> 9"
  proof
    fix row assume "row \<in> set g"
    with g have "length row = 9" by (simp add: grid9_def list_all_iff)
    then show "length (filter (\<lambda>v. v \<noteq> 0) row) \<le> 9"
      using length_filter_le[of "\<lambda>v. v \<noteq> 0" row] by simp
  qed
  then have "countNonzero g \<le> 9 * length g"
    unfolding countNonzero_def by (rule sum_list_bound)
  with g show ?thesis by (simp add: grid9_def)
qed

lemma isValid_not_self: "row < 9 \<Longrightarrow> isValid g row col num \<Longrightarrow> g ! row ! col \<noteq> num"
  using self_in_unitCells[of row col] by (auto simp: isValid_unitCells list_ex_iff)

lemma fillGrid_tryNums_returns:
  "(grid9 g \<longrightarrow> 81 < countNonzero g + n \<longrightarrow> fillGrid n shuf g k \<noteq> None)"
  "(grid9 g \<longrightarrow> row < 9 \<longrightarrow> col < 9 \<longrightarrow> g ! row ! col = 0 \<longrightarrow> 81 \<le> countNonzero g + n \<longrightarrow>
      tryNums n shuf row col nums g k \<noteq> None)"
proof (induction n shuf g k and n shuf row col nums g k rule: fillGrid_tryNums.induct)
  case (1 shuf g k)
  then show ?case using countNonzero_le_81[of g] by auto
next
  case (2 n shuf g k)
  show ?case
  proof (cases "firstEmpty g")
    case None
    then show ?thesis by simp
  next
    case (Some p)
    obtain row col where p: "p = (row, col)" by (cases p)
    from Some p have fe: "firstEmpty g = Some (row, col)" by simp
    from firstEmpty_Some[OF fe] 2[OF fe refl] fe show ?thesis by simp
  qed
next
  case (3 n shuf row col g k)
  then show ?case by simp
next
  case (4 n shuf row col num nums g k)
  show ?case
  proof (intro impI)
    assume g9: "grid9 g" and row: "row < 9" and col: "col < 9"
      and z: "g ! row ! col = 0" and fuel: "81 \<le> countNonzero g + n"
    show "tryNums n shuf row col (num # nums) g k \<noteq> None"
    proof (cases "isValid g row col num")
      case False
      with 4(3)[OF False] g9 row col z fuel show ?thesis by simp
    next
      case True
      with isValid_not_self[OF row True] z have nz: "num \<noteq> 0" by auto
      from g9 row col have "row < length g" "col < length (g ! row)"
        by (simp_all add: grid9_iff)
      from countNonzero_setCell[OF this, of num] z nz
      have cnt: "countNonzero (setCell g row col num) = countNonzero g + 1" by simp
      with 4(1)[OF True] g9 fuel
      obtain ok1 g1 k1 where
        rec: "fillGrid n shuf (setCell g row col num) k = Some (ok1, g1, k1)"
        by (auto simp: grid9_setCell)
      show ?thesis
      proof (cases ok1)
        case True
        with rec \<open>isValid g row col num\<close> show ?thesis by simp
      next
        case False
        from fillGrid_tryNums_inv(1)[of n shuf "setCell g row col num" k ok1 g1 k1] rec False g9
        have "g1 = setCell g row col num" by (simp add: grid9_setCell)
        with z have undone: "setCell g1 row col 0 = g" by (simp add: setCell_restore)
        from 4(2)[OF \<open>isValid g row col num\<close> rec refl refl False] undone g9 row col z fuel
        have "tryNums n shuf row col nums (setCell g1 row col 0) k1 \<noteq> None" by simp
        with rec False \<open>isValid g row col num\<close> show ?thesis by simp
      qed
    qed
  qed
qed

lemma fillGrid_returns: "grid9 g \<Longrightarrow> \<exists>ok g' k'. fillGrid 82 shuf g k = Some (ok, g', k')"
  using fillGrid_tryNums_returns(1)[of g 82 shuf k] by auto

lemma rand9_less: "rand9 d < 9"
  by (simp add: rand9_def)

lemma removeCells_inv:
  "removeCells g n ds = Some g' \<Longrightarrow> grid9 g \<Longrightarrow>
   grid9 g' \<and> countNonzero g' + n = countNonzero g \<and>
   (\<forall>r<9. \<forall>c<9. g' ! r ! c \<noteq> 0 \<longrightarrow> g' ! r ! c = g ! r ! c)"
proof (induction g n ds rule: removeCells.induct)
  case (1 g ds)
  then show ?case by simp
next
  case (2 g n dr dc ds)
  let ?r = "rand9 dr" and ?c = "rand9 dc"
  show ?case
  proof (cases "g ! ?r ! ?c \<noteq> 0")
    case True
    with 2(3) have rec: "removeCells (setCell g ?r ?c 0) n ds = Some g'"
      by (simp add: Let_def)
    from 2(1)[OF refl refl True rec] 2(4)
    have ih: "grid9 g'" "countNonzero g' + n = countNonzero (setCell g ?r ?c 0)"
      "\<forall>r<9. \<forall>c<9. g' ! r ! c \<noteq> 0 \<longrightarrow> g' ! r ! c = setCell g ?r ?c 0 ! r ! c"
      by (simp_all add: grid9_setCell)
    from countNonzero_blank[OF 2(4) rand9_less rand9_less True] ih(2)
    have "countNonzero g' + Suc n = countNonzero g" by simp
    moreover have "\<forall>r<9. \<forall>c<9. g' ! r ! c \<noteq> 0 \<longrightarrow> g' ! r ! c = g ! r ! c"
    proof (intro allI impI)
      fix r c assume rc: "r < 9" "c < 9" "g' ! r ! c \<noteq> 0"
      with ih(3) have "g' ! r ! c = setCell g ?r ?c 0 ! r ! c" by simp
      with rc 2(4) show "g' ! r ! c = g ! r ! c"
        by (cases "r = ?r \<and> c = ?c") (auto simp: setCell_get rand9_less)
    qed
    ultimately show ?thesis using ih(1) by simp
  next
    case False
    with 2(3) have rec: "removeCells g (Suc n) ds = Some g'"
      by (simp add: Let_def)
    from 2(2)[OF refl refl False rec] 2(4) show ?thesis by simp
  qed
qed simp_all


lemma generate_count:
  assumes gen: "generate difficulty ds shuf = Some (ini, sol)"
    and att: "attempts difficulty = Some n" and n: "27 < n"
  shows "countNonzero ini = 81 - n \<and> 
         (\<forall>r<9. \<forall>c<9. ini ! r ! c \<noteq> 0 \<longrightarrow> ini ! r ! c = sol ! r ! c)"
proof -
  from gen obtain g3 ds3 ok k where
    diag: "fillDiagonal ds = Some (g3, ds3)" and
    fill: "fillGrid 82 shuf g3 0 = Some (ok, sol, k)" and
    rem: "removeNumbers sol (attempts difficulty) ds3 = Some ini"
    by (auto simp: generate_def Let_def split: option.splits)
  from fillDiagonal_inv[OF diag] have g3: "grid9 g3" "countNonzero g3 \<le> 27" by simp_all
  from fillGrid_tryNums_inv(1)[of 82 shuf g3 0 ok sol k] fill g3(1)
  have inv: "if ok then grid9 sol \<and> firstEmpty sol = None else sol = g3"
    by simp
  then have s9: "grid9 sol" using g3(1) by (auto split: if_splits)
  from rem att have "removeCells sol n ds3 = Some ini"
    by (simp add: removeNumbers_def)
  from removeCells_inv[OF this s9]
  have r: "countNonzero ini + n = countNonzero sol"
    "\<forall>r<9. \<forall>c<9. ini ! r ! c \<noteq> 0 \<longrightarrow> ini ! r ! c = sol ! r ! c"
    by simp_all
  have "ok"
  proof (rule ccontr)
    assume "\<not> ok"
    with inv g3(2) have "countNonzero sol \<le> 27" by simp
    with r(1) n show False by simp
  qed
  with inv have "countNonzero sol = 81" by (simp add: countNonzero_full)
  with r show ?thesis by simp
qed

section \<open>Session lemmas\<close>

lemma checkCompletion_fields:
  "grid (checkCompletion s) = grid s" "initial (checkCompletion s) = initial s"
  "solution (checkCompletion s) = solution s" "notes (checkCompletion s) = notes s"
  "selectedCell (checkCompletion s) = selectedCell s" "mistakes (checkCompletion s) = mistakes s"
  "history (checkCompletion s) = history s" "isNoteMode (checkCompletion s) = isNoteMode s"
  "score (checkCompletion s) = score s + 10"
  by (simp_all add: checkCompletion_def gameOver_def Let_def)

section \<open>The generator on the concrete run\<close>

lemma demo_fillDiagonal: "fillDiagonal (diagDraws @ rest) = Some (demoDiagonal, rest)"
  by code_simp

lemma demo_fillGrid: "fillGrid 82 demoShuffle demoDiagonal 0 = Some (True, demoSolution, 54)"
  by code_simp

lemma demo_generate:
  "generate d (diagDraws @ rest) demoShuffle =
     (case removeNumbers demoSolution (attempts d) rest of
        None \<Rightarrow> None
      | Some g \<Rightarrow> Some (g, demoSolution))"
  by (simp add: generate_def demo_fillDiagonal demo_fillGrid)

lemma demo_remove_easy: "removeCells demoSolution 30 (removalDraws 30) = Some easyInitial"
  by code_simp





text \<open>
  Returning depends on the draws: when every draw is 0, \<open>fillBox\<close> writes 1 into the
  first cell and then draws 1 again and again for the second, so \<open>generate\<close> does not
  return however many draws it is given.
\<close>

lemma pickSafe_taken:
  "\<not> isSafeBox g row col 1 \<Longrightarrow> pickSafe g row col (replicate m 0) = None"
  by (induction m) (simp_all add: rand9_def)

lemma fillBox_constant_draws: "fillBox emptyGrid 0 0 (replicate n 0) = None"
proof (cases n)
  case 0
  then show ?thesis by (simp add: fillBox_def boxOffsets_def upt_rec)
next
  case (Suc m)
  have safe: "isSafeBox emptyGrid 0 0 1" by code_simp
  have taken: "\<not> isSafeBox (setCell emptyGrid 0 0 1) 0 0 1" by code_simp
  have cells: "boxOffsets = (0, 0) # (0, 1) # tl (tl boxOffsets)" by code_simp
  have first: "pickSafe emptyGrid 0 0 (replicate (Suc m) 0) = Some (1, replicate m 0)"
    using safe by (simp add: rand9_def)
  have "fillBoxCells emptyGrid 0 0 ((0, 0) # (0, 1) # tl (tl boxOffsets)) (replicate (Suc m) 0) = None"
    using first pickSafe_taken[OF taken, of m] by simp
  with cells Suc show ?thesis by (simp add: fillBox_def)
qed

lemma generate_constant_draws: "generate difficulty (replicate n 0) shuf = None"
  by (simp add: generate_def fillDiagonal_def fillBox_constant_draws)




text \<open>
  C10. The fallback to 30 misses the keys that \<open>DIFFICULTY\<close> inherits: for
  \<open>'toString'\<close> the lookup is truthy, \<open>removed\<close> is undefined, the loop is skipped and the
  returned puzzle is the full solution, 81 nonzero cells instead of 51.
\<close>

theorem generate_inherited_key:
  "attempts ''toString'' = None \<and>
   generate ''toString'' (diagDraws @ removalDraws 30) demoShuffle = Some (demoSolution, demoSolution) \<and>
   countNonzero demoSolution = 81"
  by (simp add: demo_generate attempts_def DIFFICULTY_def objectPrototypeKeys_def
      removeNumbers_def countNonzero_def demoSolution_def)

text \<open>For every other unsupported argument the fallback does what is intended.\<close>

lemma attempts_fallback:
  "tier \<notin> fst ` set supportedTiers \<Longrightarrow> tier \<notin> set objectPrototypeKeys \<Longrightarrow> attempts tier = Some 30"
  by (simp add: attempts_def DIFFICULTY_def supportedTiers_def)

lemma generate_fallback:
  assumes "tier \<notin> fst ` set supportedTiers" "tier \<notin> set objectPrototypeKeys"
    and "generate tier ds shuf = Some (ini, sol)"
  shows "countNonzero ini = 51"
  using generate_count[OF assms(3) attempts_fallback[OF assms(1,2)]] by simp

lemma generate_fallback_returns:
  "generate ''beginner'' (diagDraws @ removalDraws 30) demoShuffle = Some (easyInitial, demoSolution)"
  by (simp add: demo_generate attempts_def DIFFICULTY_def objectPrototypeKeys_def
      removeNumbers_def demo_remove_easy)

section \<open>isValid\<close>





section \<open>Mistakes\<close>

lemma wrong_digit_step:
  assumes "\<not> isGameOver s" "selectedCell s = Some (r, c)" "initial s ! r ! c = 0"
    "\<not> isNoteMode s" "grid s ! r ! c \<noteq> num" "num \<noteq> 0" "num \<noteq> solution s ! r ! c"
  shows "mistakes (inputNumber num s) = mistakes s + 1"
    and "isGameOver (inputNumber num s) \<longleftrightarrow> 3 \<le> mistakes s + 1"
    and "score (inputNumber num s) =
           (if 3 \<le> mistakes s + 1 then score s else max 0 (score s - 50))"
    and "grid (inputNumber num s) = setCell (grid s) r c num"
    and "selectedCell (inputNumber num s) = Some (r, c)"
    and "initial (inputNumber num s) = initial s"
    and "solution (inputNumber num s) = solution s"
    and "isNoteMode (inputNumber num s) = isNoteMode s"
  using assms
  by (simp_all add: inputNumber_def handleMistake_def addToHistory_def gameOver_def
      MAX_MISTAKES_def Let_def)

lemma three_wrong_digits:
  assumes wf: "grid9 (grid s)" "r < 9" "c < 9"
    and s: "\<not> isGameOver s" "selectedCell s = Some (r, c)" "initial s ! r ! c = 0"
      "\<not> isNoteMode s" "mistakes s = 0"
    and n1: "grid s ! r ! c \<noteq> n1" "n1 \<noteq> 0" "n1 \<noteq> solution s ! r ! c"
    and n2: "n1 \<noteq> n2" "n2 \<noteq> 0" "n2 \<noteq> solution s ! r ! c"
    and n3: "n2 \<noteq> n3" "n3 \<noteq> 0" "n3 \<noteq> solution s ! r ! c"
  shows "\<not> isGameOver (inputNumber n2 (inputNumber n1 s))"
    and "isGameOver (inputNumber n3 (inputNumber n2 (inputNumber n1 s)))"
    and "mistakes (inputNumber n3 (inputNumber n2 (inputNumber n1 s))) = 3"
    and "score (inputNumber n3 (inputNumber n2 (inputNumber n1 s))) =
           max 0 (max 0 (score s - 50) - 50)"
proof -
  let ?s1 = "inputNumber n1 s"
  let ?s2 = "inputNumber n2 ?s1"
  note a = wrong_digit_step[OF s(1-4) n1]
  have g1: "grid ?s1 ! r ! c \<noteq> n2"
    using wf n2(1) by (simp add: a(4) setCell_get)
  have live1: "\<not> isGameOver ?s1" using s(5) by (simp add: a(2))
  have n2': "n2 \<noteq> solution ?s1 ! r ! c" using n2(3) by (simp add: a(7))
  have i1: "initial ?s1 ! r ! c = 0" using s(3) by (simp add: a(6))
  have m1: "\<not> isNoteMode ?s1" using s(4) by (simp add: a(8))
  note b = wrong_digit_step[OF live1 a(5) i1 m1 g1 n2(2) n2']
  have g9: "grid9 (grid ?s1)" using wf by (simp add: a(4) grid9_setCell)
  have g2: "grid ?s2 ! r ! c \<noteq> n3"
    using g9 wf(2,3) n3(1) by (simp add: b(4) setCell_get)
  have live2: "\<not> isGameOver ?s2" using s(5) by (simp add: b(2) a(1))
  have n3': "n3 \<noteq> solution ?s2 ! r ! c" using n3(3) by (simp add: b(7) a(7))
  have i2: "initial ?s2 ! r ! c = 0" using s(3) by (simp add: b(6) a(6))
  have m2: "\<not> isNoteMode ?s2" using s(4) by (simp add: b(8) a(8))
  note d = wrong_digit_step[OF live2 b(5) i2 m2 g2 n3(2) n3']
  show "\<not> isGameOver ?s2" by (rule live2)
  show "isGameOver (inputNumber n3 ?s2)" using s(5) by (simp add: d(2) b(1) a(1))
  show "mistakes (inputNumber n3 ?s2) = 3" using s(5) by (simp add: d(1) b(1) a(1))
  show "score (inputNumber n3 ?s2) = max 0 (max 0 (score s - 50) - 50)"
    using s(5) by (simp add: d(3) b(3) b(1) a(3) a(1))
qed

text \<open>
  C3, as the code has it. A normal-mode move that writes a digit other than the solution's
  into a non-fixed cell increments the mistake count and ends the session exactly when
  the count reaches 3; the 50 points are deducted (floored at 0) only while the count stays
  below 3, and the move that ends the session leaves the score as it is. Three wrong
  digits in a row from no mistakes therefore cost two penalties, at most 100 points.
\<close>

theorem wrong_digit_move:
  assumes "wellFormed s" "\<not> isGameOver s" "selectedCell s = Some (r, c)"
    "initial s ! r ! c = 0" "\<not> isNoteMode s"
    "grid s ! r ! c \<noteq> n1" "n1 \<noteq> 0" "n1 \<noteq> solution s ! r ! c"
  shows "mistakes (inputNumber n1 s) = mistakes s + 1 \<and>
         (isGameOver (inputNumber n1 s) \<longleftrightarrow> mistakes s + 1 \<ge> MAX_MISTAKES) \<and>
         score (inputNumber n1 s) =
           (if mistakes s + 1 \<ge> MAX_MISTAKES then score s else max 0 (score s - 50)) \<and>
         (\<forall>n2 n3. mistakes s = 0 \<and> n2 \<notin> {0, n1, solution s ! r ! c} \<and>
                   n3 \<notin> {0, n2, solution s ! r ! c} \<longrightarrow>
            \<not> isGameOver (inputNumber n2 (inputNumber n1 s)) \<and>
            isGameOver (inputNumber n3 (inputNumber n2 (inputNumber n1 s))) \<and>
            score (inputNumber n3 (inputNumber n2 (inputNumber n1 s))) =
              max 0 (max 0 (score s - 50) - 50) \<and>
            score s - 100 \<le> score (inputNumber n3 (inputNumber n2 (inputNumber n1 s))))"
proof -
  from assms(1,3) have wf: "grid9 (grid s)" "r < 9" "c < 9"
    by (simp_all add: wellFormed_def)
  note one = wrong_digit_step[OF assms(2-8)]
  have three: "\<forall>n2 n3. mistakes s = 0 \<and> n2 \<notin> {0, n1, solution s ! r ! c} \<and>
                   n3 \<notin> {0, n2, solution s ! r ! c} \<longrightarrow>
            \<not> isGameOver (inputNumber n2 (inputNumber n1 s)) \<and>
            isGameOver (inputNumber n3 (inputNumber n2 (inputNumber n1 s))) \<and>
            score (inputNumber n3 (inputNumber n2 (inputNumber n1 s))) =
              max 0 (max 0 (score s - 50) - 50) \<and>
            score s - 100 \<le> score (inputNumber n3 (inputNumber n2 (inputNumber n1 s)))"
  proof (intro allI impI)
    fix n2 n3
    assume h: "mistakes s = 0 \<and> n2 \<notin> {0, n1, solution s ! r ! c} \<and>
               n3 \<notin> {0, n2, solution s ! r ! c}"
    then have n2: "n1 \<noteq> n2" "n2 \<noteq> 0" "n2 \<noteq> solution s ! r ! c"
      and n3: "n2 \<noteq> n3" "n3 \<noteq> 0" "n3 \<noteq> solution s ! r ! c"
      and m: "mistakes s = 0" by auto
    note t = three_wrong_digits[OF wf assms(2-5) m assms(6-8) n2 n3]
    from t(1,2,4)
    show "\<not> isGameOver (inputNumber n2 (inputNumber n1 s)) \<and>
          isGameOver (inputNumber n3 (inputNumber n2 (inputNumber n1 s))) \<and>
          score (inputNumber n3 (inputNumber n2 (inputNumber n1 s))) =
            max 0 (max 0 (score s - 50) - 50) \<and>
          score s - 100 \<le> score (inputNumber n3 (inputNumber n2 (inputNumber n1 s)))"
      by simp
  qed
  have single: "mistakes (inputNumber n1 s) = mistakes s + 1 \<and>
         (isGameOver (inputNumber n1 s) \<longleftrightarrow> mistakes s + 1 \<ge> MAX_MISTAKES) \<and>
         score (inputNumber n1 s) =
           (if mistakes s + 1 \<ge> MAX_MISTAKES then score s else max 0 (score s - 50))"
    using one(1,2,3) by (simp add: MAX_MISTAKES_def)
  from single three show ?thesis by blast
qed

lemma wellFormed_fiftyPoints: "wellFormed fiftyPoints"
  by code_simp

theorem wrong_digit_move_witness:
  "wellFormed fiftyPoints \<and> \<not> isGameOver fiftyPoints \<and> selectedCell fiftyPoints = Some (0, 5) \<and>
   mistakes fiftyPoints = 0 \<and> score fiftyPoints = 50 \<and>
   mistakes (inputNumber 7 fiftyPoints) = 1 \<and> \<not> isGameOver (inputNumber 7 fiftyPoints) \<and>
   score (inputNumber 7 fiftyPoints) = 0 \<and>
   isGameOver (inputNumber 9 (inputNumber 8 (inputNumber 7 fiftyPoints))) \<and>
   score (inputNumber 9 (inputNumber 8 (inputNumber 7 fiftyPoints))) = 0"
proof -
  have a: "wellFormed fiftyPoints" by (rule wellFormed_fiftyPoints)
  have b: "\<not> isGameOver fiftyPoints" "selectedCell fiftyPoints = Some (0, 5)"
    "initial fiftyPoints ! 0 ! 5 = 0" "\<not> isNoteMode fiftyPoints"
    "grid fiftyPoints ! 0 ! 5 \<noteq> 7" "(7::nat) \<noteq> 0" "7 \<noteq> solution fiftyPoints ! 0 ! 5"
    by code_simp+
  have c: "mistakes fiftyPoints = 0" "score fiftyPoints = 50" "solution fiftyPoints ! 0 ! 5 = 6"
    by code_simp+
  from wrong_digit_move[OF a b]
  have "mistakes (inputNumber 7 fiftyPoints) = 1 \<and> \<not> isGameOver (inputNumber 7 fiftyPoints) \<and>
        score (inputNumber 7 fiftyPoints) = 0 \<and>
        (mistakes fiftyPoints = 0 \<and> (8::nat) \<notin> {0, 7, solution fiftyPoints ! 0 ! 5} \<and>
         (9::nat) \<notin> {0, 8, solution fiftyPoints ! 0 ! 5} \<longrightarrow>
         isGameOver (inputNumber 9 (inputNumber 8 (inputNumber 7 fiftyPoints))) \<and>
         score (inputNumber 9 (inputNumber 8 (inputNumber 7 fiftyPoints))) = 0)"
    by (simp add: c MAX_MISTAKES_def)
  with a b c show ?thesis by simp
qed

text \<open>
  C3, as the claim states it, fails at the move that brings the count to 3: after two
  mistakes and with 10 points, the third wrong digit ends the session and the score is
  still 10, not \<open>max 0 (10 - 50) = 0\<close>.
\<close>

theorem third_mistake_counterexample:
  "mistakes twoMistakes = 2 \<and> score twoMistakes = 10 \<and> 5 \<noteq> solution twoMistakes ! 0 ! 1 \<and>
   isGameOver (inputNumber 5 twoMistakes) \<and>
   score (inputNumber 5 twoMistakes) \<noteq> max 0 (score twoMistakes - 50)"
  by code_simp

section \<open>Hints\<close>

lemma useHint_applies:
  assumes "\<not> isGameOver s" "50 \<le> score s" "selectedCell s = Some (r, c)" "grid s ! r ! c = 0"
  shows "useHint s = checkCompletion (applyHint r c s)"
  using assms by (simp add: useHint_def HINT_COST_def)

text \<open>The hint's 50 points and the 10 points of the completion check: 40 in all.\<close>

lemma useHint_net_score:
  assumes "\<not> isGameOver s" "50 \<le> score s" "selectedCell s = Some (r, c)" "grid s ! r ! c = 0"
  shows "score (useHint s) = score s - 40"
  by (simp add: useHint_applies[OF assms] checkCompletion_fields applyHint_def HINT_COST_def)

text \<open>
  What the hint writes: the solution's value into the selected cell of \<open>grid\<close> and of
  \<open>initial\<close>, so the cell is fixed from then on, and no other cell.
\<close>

lemma useHint_cells:
  assumes "wellFormed s" "\<not> isGameOver s" "HINT_COST \<le> score s" "selectedCell s = Some (r, c)"
    "grid s ! r ! c = 0"
  shows "grid (useHint s) ! r ! c = solution s ! r ! c \<and>
         initial (useHint s) ! r ! c = solution s ! r ! c \<and>
         grid (useHint s) = setCell (grid s) r c (solution s ! r ! c) \<and>
         initial (useHint s) = setCell (initial s) r c (solution s ! r ! c) \<and>
         solution (useHint s) = solution s"
proof -
  from assms(1,4) have wf: "grid9 (grid s)" "grid9 (initial s)" "r < 9" "c < 9"
    by (simp_all add: wellFormed_def)
  from assms(3) have sc: "50 \<le> score s" by (simp add: HINT_COST_def)
  note u = useHint_applies[OF assms(2) sc assms(4,5)]
  show ?thesis
    using wf by (simp add: u checkCompletion_fields applyHint_def setCell_get)
qed

text \<open>
  C4. The hint does not cost the 50 points of \<open>HINT_COST\<close>. After five right digits
  the session has 50 points and the empty cell \<open>(0, 5)\<close> selected; \<open>useHint\<close> sets the
  cell to its solution value 6 and fixes it, as the claim says, but the score afterwards
  is 10 and not 0: \<open>useHint\<close> ends with \<open>checkCompletion\<close>, which adds its 10 points
  for a correct move on every call.
\<close>

theorem hint_costs_40:
  "\<not> isGameOver fiftyPoints \<and> score fiftyPoints = 50 \<and>
   selectedCell fiftyPoints = Some (0, 5) \<and> grid fiftyPoints ! 0 ! 5 = 0 \<and>
   solution fiftyPoints ! 0 ! 5 = 6 \<and>
   grid (useHint fiftyPoints) ! 0 ! 5 = 6 \<and> initial (useHint fiftyPoints) ! 0 ! 5 = 6 \<and>
   score (useHint fiftyPoints) = 10"
  by code_simp

section \<open>History\<close>

lemma addToHistory_length:
  "length (history (addToHistory a s)) =
     (if length (history s) > 20 then length (history s) else length (history s) + 1)"
  by (auto simp: addToHistory_def Let_def)

lemma addToHistory_bound:
  "length (history s) \<le> 21 \<Longrightarrow> length (history (addToHistory a s)) \<le> 21"
  by (simp add: addToHistory_length)

lemma addToHistory_evicts_oldest:
  "length (history s) > 20 \<Longrightarrow> history (addToHistory a s) = tl (history s) @ [a]"
  by (simp add: addToHistory_def Let_def)

lemma undo_pops_newest:
  "history s \<noteq> [] \<Longrightarrow> \<not> isGameOver s \<Longrightarrow> history (undo s) = butlast (history s)"
  by (simp add: undo_def Let_def selectCell_def)

text \<open>
  C6. The test \<open>length > 20\<close> runs before the push, so a history of 20 entries is pushed
  onto without eviction: after twenty moves the next move leaves 21 entries.
\<close>

theorem history_holds_21:
  "length (history twentyMoves) = 20 \<and> length (history (inputNumber 1 twentyMoves)) = 21"
  by code_simp

section \<open>After game over\<close>




section \<open>Notes\<close>

lemma setNote_get:
  "setNote ns r c v ! tr ! tc =
     (if tr = r \<and> tc = c \<and> r < length ns \<and> c < length (ns ! r) then v else ns ! tr ! tc)"
  by (simp add: setNote_def nth_update_if)

lemma setNote_same: "setNote ns r c (ns ! r ! c) = ns"
  by (simp add: setNote_def)

lemma notes9_iff: "notes9 ns \<longleftrightarrow> length ns = 9 \<and> (\<forall>r<9. length (ns ! r) = 9)"
  by (auto simp: notes9_def list_all_length)

lemma notes9_setNote: "notes9 ns \<Longrightarrow> notes9 (setNote ns r c v)"
  by (auto simp: notes9_iff setNote_def nth_update_if)

lemma notesDistinct_iff:
  "notes9 ns \<Longrightarrow> notesDistinct ns \<longleftrightarrow> (\<forall>r<9. \<forall>c<9. distinct (ns ! r ! c))"
  by (simp add: notesDistinct_def notes9_iff list_all_length)

text \<open>What \<open>removeNote\<close> does to the notes, as a function of the notes alone.\<close>

lemma removeNote_notes:
  "notes (removeNote a b num s) = setNote (notes s) a b (remove1 num (notes s ! a ! b))"
  by (simp add: removeNote_def remove1_idem setNote_same)

lemma fold_removeNote_notes:
  "notes (fold (\<lambda>(a, b). removeNote a b num) ps s) =
   fold (\<lambda>(a, b) ns. setNote ns a b (remove1 num (ns ! a ! b))) ps (notes s)"
  by (induction ps arbitrary: s) (auto simp: removeNote_notes)

lemma fold_concat: "fold f (concat xss) = fold (fold f) xss"
  by (induction xss) simp_all

lemma clearNotesForMove_fold:
  "clearNotesForMove r c num s =
   fold (\<lambda>(a, b). removeNote a b num) (unitCells r c) (s\<lparr>notes := setNote (notes s) r c []\<rparr>)"
  by (simp add: clearNotesForMove_def unitCells_def Let_def fold_map fold_concat comp_def)

lemma strip_cells:
  assumes "notes9 ns" "\<forall>r<9. \<forall>c<9. distinct (ns ! r ! c)" "\<forall>(a, b)\<in>set ps. a < 9 \<and> b < 9"
    "tr < 9" "tc < 9"
  shows "fold (\<lambda>(a, b) ns. setNote ns a b (remove1 num (ns ! a ! b))) ps ns ! tr ! tc =
         (if (tr, tc) \<in> set ps then removeAll num (ns ! tr ! tc) else ns ! tr ! tc)"
  using assms
proof (induction ps arbitrary: ns)
  case Nil
  then show ?case by simp
next
  case (Cons p ps)
  obtain a b where p: "p = (a, b)" by (cases p)
  let ?ns = "setNote ns a b (remove1 num (ns ! a ! b))"
  from Cons.prems(3) p have ab: "a < 9" "b < 9" by auto
  with Cons.prems(1) have len: "a < length ns" "b < length (ns ! a)"
    by (simp_all add: notes9_iff)
  have n9: "notes9 ?ns" using Cons.prems(1) by (rule notes9_setNote)
  have dist: "\<forall>r<9. \<forall>c<9. distinct (?ns ! r ! c)"
    using Cons.prems(2) ab by (auto simp: setNote_get)
  have rest: "\<forall>(a, b)\<in>set ps. a < 9 \<and> b < 9" using Cons.prems(3) by simp
  have here: "remove1 num (ns ! a ! b) = removeAll num (ns ! a ! b)"
    using Cons.prems(2) ab by (simp add: distinct_remove1_removeAll)
  from Cons.IH[OF n9 dist rest Cons.prems(4,5)] show ?case
    using len by (auto simp: p setNote_get here)
qed


lemma box_coord: "(\<exists>i<3. x = q * 3 + i) \<longleftrightarrow> x div 3 = (q::nat)"
  by presburger

lemma in_unitCells:
  assumes "tr < 9" "tc < 9"
  shows "(tr, tc) \<in> set (unitCells r c) \<longleftrightarrow> related r c tr tc"
proof -
  have box: "(\<exists>i<3. \<exists>j<3. tr = (r div 3) * 3 + i \<and> tc = (c div 3) * 3 + j) \<longleftrightarrow>
             tr div 3 = r div 3 \<and> tc div 3 = c div 3"
    using box_coord[of tr "r div 3"] box_coord[of tc "c div 3"] by blast
  have "set (unitCells r c) =
        {(r, x) | x. x < 9} \<union> {(x, c) | x. x < 9} \<union>
        {((r div 3) * 3 + i, (c div 3) * 3 + j) | i j. i < 3 \<and> j < 3}"
    unfolding unitCells_def by (simp add: set_eq_iff image_iff) fastforce
  then have "(tr, tc) \<in> set (unitCells r c) \<longleftrightarrow>
        tr = r \<or> tc = c \<or> (\<exists>i<3. \<exists>j<3. tr = (r div 3) * 3 + i \<and> tc = (c div 3) * 3 + j)"
    using assms by auto
  with box show ?thesis by (simp add: related_def)
qed

lemma unitCells_range:
  assumes "r < 9" "c < 9"
  shows "\<forall>(a, b)\<in>set (unitCells r c). a < 9 \<and> b < 9"
proof -
  have "(r div 3) * 3 + i < 9" "(c div 3) * 3 + i < 9" if "i < 3" for i
    using assms that by presburger+
  with assms show ?thesis by (auto simp: unitCells_def)
qed

lemma related_self: "related r c r c"
  by (simp add: related_def)

lemma clearNotesForMove_cell:
  assumes "notes9 (notes s)" "notesDistinct (notes s)" "r < 9" "c < 9" "tr < 9" "tc < 9"
  shows "notes (clearNotesForMove r c num s) ! tr ! tc =
           (if tr = r \<and> tc = c then []
            else if related r c tr tc then removeAll num (notes s ! tr ! tc)
            else notes s ! tr ! tc)"
proof -
  let ?ns = "setNote (notes s) r c []"
  have n9: "notes9 ?ns" using assms(1) by (rule notes9_setNote)
  have dist: "\<forall>r<9. \<forall>c<9. distinct (?ns ! r ! c)"
    using assms(1,2) by (auto simp: notesDistinct_iff setNote_get)
  have len: "r < length (notes s)" "c < length (notes s ! r)"
    using assms(1,3,4) by (simp_all add: notes9_iff)
  have "notes (clearNotesForMove r c num s) ! tr ! tc =
        (if (tr, tc) \<in> set (unitCells r c) then removeAll num (?ns ! tr ! tc) else ?ns ! tr ! tc)"
    using strip_cells[OF n9 dist unitCells_range[OF assms(3,4)] assms(5,6), of num]
    by (simp add: clearNotesForMove_fold fold_removeNote_notes)
  then show ?thesis
    using len by (auto simp: in_unitCells[OF assms(5,6)] setNote_get related_self)
qed

lemma correct_digit_notes:
  assumes "\<not> isGameOver s" "selectedCell s = Some (r, c)" "initial s ! r ! c = 0"
    "\<not> isNoteMode s" "grid s ! r ! c \<noteq> d" "d \<noteq> 0" "d = solution s ! r ! c"
  shows "notes (inputNumber d s) = notes (clearNotesForMove r c d s)"
  using assms
  by (simp add: inputNumber_def Let_def addToHistory_def clearNotesForMove_fold
      fold_removeNote_notes checkCompletion_fields)

text \<open>Note toggling keeps the lists free of repetitions.\<close>

lemma toggleNoteValue_distinct:
  assumes "notes9 (notes s)" "notesDistinct (notes s)"
  shows "notesDistinct (notes (toggleNoteValue r c num s))"
proof -
  have n9: "notes9 (notes (toggleNoteValue r c num s))"
    using assms(1) by (simp add: toggleNoteValue_def notes9_setNote)
  from assms have d: "\<forall>r<9. \<forall>c<9. distinct (notes s ! r ! c)"
    by (simp add: notesDistinct_iff)
  have "\<forall>tr<9. \<forall>tc<9. distinct (notes (toggleNoteValue r c num s) ! tr ! tc)"
    using d by (auto simp: toggleNoteValue_def setNote_get)
  with n9 show ?thesis by (simp add: notesDistinct_iff)
qed

text \<open>
  C5. A normal-mode move that writes the solution's digit \<open>d\<close> into the non-fixed cell
  \<open>(r, c)\<close> leaves that cell without notes, leaves no \<open>d\<close> in the notes of any cell of
  the same row, column or box, keeps every other digit of those notes (and their order),
  and does not touch the notes of the remaining cells. The note lists are sets: no digit
  twice in a list.
\<close>

theorem correct_placement_clears_notes:
  assumes "wellFormed s" "notesDistinct (notes s)" "\<not> isGameOver s"
    "selectedCell s = Some (r, c)" "initial s ! r ! c = 0" "\<not> isNoteMode s"
    "grid s ! r ! c \<noteq> d" "d \<noteq> 0" "d = solution s ! r ! c"
  shows "notes (inputNumber d s) ! r ! c = [] \<and>
         (\<forall>tr<9. \<forall>tc<9.
            (related r c tr tc \<longrightarrow> d \<notin> set (notes (inputNumber d s) ! tr ! tc)) \<and>
            (related r c tr tc \<and> (tr, tc) \<noteq> (r, c) \<longrightarrow>
               notes (inputNumber d s) ! tr ! tc = removeAll d (notes s ! tr ! tc)) \<and>
            (\<not> related r c tr tc \<longrightarrow>
               notes (inputNumber d s) ! tr ! tc = notes s ! tr ! tc))"
proof -
  from assms(1,4) have wf: "notes9 (notes s)" "r < 9" "c < 9"
    by (simp_all add: wellFormed_def)
  note eq = correct_digit_notes[OF assms(3-9)]
  note cell = clearNotesForMove_cell[OF wf(1) assms(2) wf(2,3)]
  have own: "notes (inputNumber d s) ! r ! c = []"
    using cell[OF wf(2,3), of d] by (simp add: eq)
  have others: "\<forall>tr<9. \<forall>tc<9.
            (related r c tr tc \<longrightarrow> d \<notin> set (notes (inputNumber d s) ! tr ! tc)) \<and>
            (related r c tr tc \<and> (tr, tc) \<noteq> (r, c) \<longrightarrow>
               notes (inputNumber d s) ! tr ! tc = removeAll d (notes s ! tr ! tc)) \<and>
            (\<not> related r c tr tc \<longrightarrow>
               notes (inputNumber d s) ! tr ! tc = notes s ! tr ! tc)"
  proof (intro allI impI)
    fix tr tc :: nat assume "tr < 9" "tc < 9"
    from cell[OF this, of d] show
      "(related r c tr tc \<longrightarrow> d \<notin> set (notes (inputNumber d s) ! tr ! tc)) \<and>
       (related r c tr tc \<and> (tr, tc) \<noteq> (r, c) \<longrightarrow>
          notes (inputNumber d s) ! tr ! tc = removeAll d (notes s ! tr ! tc)) \<and>
       (\<not> related r c tr tc \<longrightarrow> notes (inputNumber d s) ! tr ! tc = notes s ! tr ! tc)"
      by (auto simp: eq related_self)
  qed
  from own others show ?thesis by blast
qed


lemma wellFormed_notedSession: "wellFormed notedSession \<and> notesDistinct (notes notedSession)"
  by code_simp

theorem correct_placement_clears_notes_witness:
  "wellFormed notedSession \<and> notesDistinct (notes notedSession) \<and> \<not> isGameOver notedSession \<and>
   selectedCell notedSession = Some (0, 0) \<and> initial notedSession ! 0 ! 0 = 0 \<and>
   \<not> isNoteMode notedSession \<and> grid notedSession ! 0 ! 0 \<noteq> 1 \<and>
   1 = solution notedSession ! 0 ! 0 \<and>
   notes notedSession ! 0 ! 0 = [2] \<and> notes (inputNumber 1 notedSession) ! 0 ! 0 = [] \<and>
   notes notedSession ! 0 ! 1 = [1, 4] \<and> notes (inputNumber 1 notedSession) ! 0 ! 1 = [4] \<and>
   notes notedSession ! 1 ! 4 = [1] \<and> notes (inputNumber 1 notedSession) ! 1 ! 4 = [1]"
proof -
  have a: "wellFormed notedSession" "notesDistinct (notes notedSession)"
    using wellFormed_notedSession by simp_all
  have b: "\<not> isGameOver notedSession" "selectedCell notedSession = Some (0, 0)"
    "initial notedSession ! 0 ! 0 = 0" "\<not> isNoteMode notedSession"
    "grid notedSession ! 0 ! 0 \<noteq> 1" "(1::nat) \<noteq> 0" "1 = solution notedSession ! 0 ! 0"
    by code_simp+
  have c: "notes notedSession ! 0 ! 0 = [2]" "notes notedSession ! 0 ! 1 = [1, 4]"
    "notes notedSession ! 1 ! 4 = [1]"
    by code_simp+
  have rel: "related 0 0 0 1" "\<not> related 0 0 1 4" by (simp_all add: related_def)
  note t = correct_placement_clears_notes[OF a b]
  from t have own: "notes (inputNumber 1 notedSession) ! 0 ! 0 = []" by blast
  from t have "related 0 0 0 1 \<and> (0::nat, 1::nat) \<noteq> (0, 0) \<longrightarrow>
      notes (inputNumber 1 notedSession) ! 0 ! 1 = removeAll 1 (notes notedSession ! 0 ! 1)"
    by simp
  with rel c have peer: "notes (inputNumber 1 notedSession) ! 0 ! 1 = [4]" by simp
  from t have "\<not> related 0 0 1 4 \<longrightarrow>
      notes (inputNumber 1 notedSession) ! 1 ! 4 = notes notedSession ! 1 ! 4"
    by simp
  with rel c have far: "notes (inputNumber 1 notedSession) ! 1 ! 4 = [1]" by simp
  from a b c own peer far show ?thesis by simp
qed

section \<open>Notes and fixed cells\<close>

lemma strip_subset:
  "set (fold (\<lambda>(a, b) ns. setNote ns a b (remove1 num (ns ! a ! b))) ps ns ! tr ! tc)
   \<subseteq> set (ns ! tr ! tc)"
proof (induction ps arbitrary: ns)
  case Nil
  then show ?case by simp
next
  case (Cons p ps)
  obtain a b where p: "p = (a, b)" by (cases p)
  let ?ns = "setNote ns a b (remove1 num (ns ! a ! b))"
  have "set (?ns ! tr ! tc) \<subseteq> set (ns ! tr ! tc)"
    using set_remove1_subset[of num "ns ! a ! b"] by (auto simp: setNote_get)
  with Cons.IH[of ?ns] show ?case by (auto simp: p)
qed

lemma clearNotesForMove_notes:
  "notes (clearNotesForMove r c num s) =
   fold (\<lambda>(a, b) ns. setNote ns a b (remove1 num (ns ! a ! b))) (unitCells r c)
     (setNote (notes s) r c [])"
  by (simp add: clearNotesForMove_fold fold_removeNote_notes)

lemma clear_subset:
  "set (fold (\<lambda>(a, b) ns. setNote ns a b (remove1 num (ns ! a ! b))) (unitCells r c)
          (setNote ns r c []) ! tr ! tc) \<subseteq> set (ns ! tr ! tc)"
proof -
  have "set (setNote ns r c [] ! tr ! tc) \<subseteq> set (ns ! tr ! tc)"
    by (simp add: setNote_get)
  with strip_subset[of num "unitCells r c" "setNote ns r c []" tr tc]
  show ?thesis by blast
qed

lemma inputNumber_notes_fixed:
  assumes "initial s ! tr ! tc \<noteq> 0"
  shows "set (notes (inputNumber num s) ! tr ! tc) \<subseteq> set (notes s ! tr ! tc)"
proof (cases "selectedCell s")
  case None
  then show ?thesis by (simp add: inputNumber_def)
next
  case (Some p)
  obtain r c where p: "p = (r, c)" by (cases p)
  show ?thesis
  proof (cases "isGameOver s \<or> initial s ! r ! c \<noteq> 0")
    case True
    with Some p show ?thesis by (auto simp: inputNumber_def)
  next
    case False
    with assms have other: "\<not> (tr = r \<and> tc = c)" by auto
    show ?thesis
    proof (cases "isNoteMode s")
      case True
      with False Some p other show ?thesis
        by (auto simp: inputNumber_def toggleNoteValue_def setNote_get)
    next
      case normal: False
      from False Some p normal
      have "notes (inputNumber num s) = notes s \<or>
            notes (inputNumber num s) =
              fold (\<lambda>(a, b) ns. setNote ns a b (remove1 num (ns ! a ! b))) (unitCells r c)
                (setNote (notes s) r c [])"
        by (simp add: inputNumber_def Let_def handleMistake_def addToHistory_def gameOver_def
            clearNotesForMove_notes checkCompletion_fields)
      then show ?thesis using clear_subset[of num r c "notes s" tr tc] by auto
    qed
  qed
qed

text \<open>
  C9, as the code has it. Notes are added only to cells that are not fixed: no operation
  of the player adds a digit to the notes of a cell that is fixed when the operation
  runs. Whether the cell holds a digit plays no part.
\<close>

theorem notes_added_only_to_nonfixed:
  assumes "wellFormed s" "tr < 9" "tc < 9" "initial s ! tr ! tc \<noteq> 0"
  shows "set (notes (perform op s) ! tr ! tc) \<subseteq> set (notes s ! tr ! tc)"
proof (cases op)
  case (Select r c)
  then show ?thesis by (simp add: selectCell_def)
next
  case (Enter num)
  then show ?thesis using inputNumber_notes_fixed[OF assms(4)] by simp
next
  case Erase
  then show ?thesis
    using inputNumber_notes_fixed[OF assms(4), of 0]
    by (auto simp: erase_def split: option.splits)
next
  case Undo
  then show ?thesis by (simp add: undo_def selectCell_def Let_def)
next
  case Hint
  then show ?thesis
    by (simp add: useHint_def checkCompletion_fields applyHint_def split: option.splits)
next
  case ToggleNotes
  then show ?thesis by (simp add: toggleNotes_def)
next
  case Pause
  then show ?thesis by (simp add: pauseGame_def)
next
  case Resume
  then show ?thesis by (simp add: resumeFromPause_def)
qed

theorem notes_added_only_to_nonfixed_witness:
  "wellFormed notedSession \<and> initial notedSession ! 4 ! 0 \<noteq> 0 \<and>
   set (notes (perform (Enter 3) (selectCell 4 0 (toggleNotes notedSession))) ! 4 ! 0) \<subseteq> {}"
proof -
  have a: "wellFormed (selectCell 4 0 (toggleNotes notedSession))" by code_simp
  have b: "initial (selectCell 4 0 (toggleNotes notedSession)) ! 4 ! 0 \<noteq> 0" by code_simp
  have c: "notes (selectCell 4 0 (toggleNotes notedSession)) ! 4 ! 0 = []" by code_simp
  have d: "initial notedSession ! 4 ! 0 \<noteq> 0" by code_simp
  from notes_added_only_to_nonfixed[OF a _ _ b, of "Enter 3"] c d wellFormed_notedSession
  show ?thesis by simp
qed

text \<open>
  C9, as the claim states it, fails: in note mode \<open>inputNumber\<close> toggles the note
  without looking at the grid, so the cell \<open>(0, 0)\<close>, which holds the digit 1, gets the
  note 3.
\<close>

theorem note_on_filled_cell:
  "grid (run [Select 0 0, Enter 1, ToggleNotes, Enter 3] easySession) ! 0 ! 0 = 1 \<and>
   notes (run [Select 0 0, Enter 1, ToggleNotes, Enter 3] easySession) ! 0 ! 0 = [3]"
  by code_simp

section \<open>Moves and fixed cells\<close>

lemma fold_removeNote_grid:
  "grid (fold (\<lambda>(a, b). removeNote a b num) ps s) = grid s"
  by (induction ps arbitrary: s) (auto simp: removeNote_def)

lemma clearNotesForMove_grid: "grid (clearNotesForMove r c num s) = grid s"
  by (simp add: clearNotesForMove_fold fold_removeNote_grid)

text \<open>
  The guard \<open>initial[r][c] !== 0\<close> of \<open>inputNumber\<close> and \<open>erase\<close>: neither changes the
  grid value of a fixed cell.
\<close>

lemma inputNumber_keeps_fixed:
  assumes "wellFormed s" "tr < 9" "tc < 9" "initial s ! tr ! tc \<noteq> 0"
  shows "grid (inputNumber num s) ! tr ! tc = grid s ! tr ! tc"
proof (cases "selectedCell s")
  case None
  then show ?thesis by (simp add: inputNumber_def)
next
  case (Some p)
  obtain r c where p: "p = (r, c)" by (cases p)
  from assms(1) Some p have wf: "grid9 (grid s)" "r < 9" "c < 9"
    by (simp_all add: wellFormed_def)
  show ?thesis
  proof (cases "initial s ! r ! c \<noteq> 0")
    case True
    with Some p show ?thesis by (simp add: inputNumber_def)
  next
    case False
    with assms(4) have "\<not> (tr = r \<and> tc = c)" by auto
    with Some p wf assms(2,3) show ?thesis
      by (auto simp: inputNumber_def Let_def handleMistake_def addToHistory_def gameOver_def
          toggleNoteValue_def clearNotesForMove_grid checkCompletion_fields setCell_get)
  qed
qed

lemma erase_keeps_fixed:
  assumes "wellFormed s" "tr < 9" "tc < 9" "initial s ! tr ! tc \<noteq> 0"
  shows "grid (erase s) ! tr ! tc = grid s ! tr ! tc"
  using inputNumber_keeps_fixed[OF assms, of 0]
  by (auto simp: erase_def split: option.splits)

text \<open>A hint writes only into a cell whose grid value is 0.\<close>

lemma useHint_keeps_filled:
  assumes "wellFormed s" "tr < 9" "tc < 9" "grid s ! tr ! tc \<noteq> 0"
  shows "grid (useHint s) ! tr ! tc = grid s ! tr ! tc"
proof (cases "selectedCell s")
  case None
  then show ?thesis by (simp add: useHint_def)
next
  case (Some p)
  obtain r c where p: "p = (r, c)" by (cases p)
  from assms(1) Some p have wf: "grid9 (grid s)" "r < 9" "c < 9"
    by (simp_all add: wellFormed_def)
  from Some p wf assms(2-4) show ?thesis
    by (auto simp: useHint_def applyHint_def checkCompletion_fields setCell_get)
qed

text \<open>
  C7. \<open>undo\<close> has no check of \<open>initial\<close>. The cell \<open>(0, 5)\<close> was filled, erased and
  then fixed by a hint; two undos take it back to empty although it is fixed.
\<close>

theorem undo_changes_fixed_cell:
  "initial hinted ! 0 ! 5 = 6 \<and> grid hinted ! 0 ! 5 = 6 \<and>
   initial (undo hinted) ! 0 ! 5 = 6 \<and> grid (undo hinted) ! 0 ! 5 = 6 \<and>
   grid (undo (undo hinted)) ! 0 ! 5 = 0"
  by code_simp

end
